theory Spec2Isabelle
  imports
    Main
    "HOL-Library.Char_ord"
    "HOL-Library.List_Lexorder"
    "HOL-Library.Product_Lexorder"
    "HOL-Library.Sublist"
    "HOL-Library.FSet"
    "HOL-Library.Word"
begin

section \<open>getconf: a layered configuration getter\<close>

text \<open>
  The development embeds \<^verbatim>\<open>getconf/base.py\<close>: the class \<^verbatim>\<open>ConfigGetter\<close>, its
  constructor, the lookup chain (\<^verbatim>\<open>_env_key\<close>, \<^verbatim>\<open>_read_env\<close>, \<^verbatim>\<open>_read_parser\<close>,
  \<^verbatim>\<open>_read\<close>, \<^verbatim>\<open>_get\<close>), the accessors and \<^verbatim>\<open>list_keys\<close>.  A method \<^verbatim>\<open>_m\<close>
  of the class is the constant \<open>cg_m\<close> here (an identifier cannot start with an underscore);
  public methods keep their names.

  Text is a \<^typ>\<open>string\<close>.  Case conversion and whitespace are those of the ASCII range,
  where Python's byte strings and text strings agree.  The decoding step of
  \<^verbatim>\<open>_read_env\<close> and \<^verbatim>\<open>_read_parser\<close> (\<^verbatim>\<open>value.decode('utf-8')\<close> under
  \<^verbatim>\<open>compat.PY2\<close>) turns the bytes of a value into the text with the same content, so
  the model keeps one representation for both.
\<close>

subsection \<open>Python values and exceptions\<close>

text \<open>
  A float is kept as its IEEE-754 binary64 pattern; the program never computes with one,
  it only passes it through \<^verbatim>\<open>float()\<close>.
\<close>

type_synonym pyfloat = "64 word"

datatype pyval =
    PyNone
  | PyText string
  | PyBool bool
  | PyInt int
  | PyFloat pyfloat
  | PyList "pyval list"
  | PyTuple "pyval list"

datatype error =
    NotFound
  | AssertionError
  | ValueError
  | TypeError
  | OverflowError
  | ParsingError

text \<open>
  The conversions of the interpreter that the accessors call on values other than text:
  \<^verbatim>\<open>int(text)\<close>, \<^verbatim>\<open>int(float)\<close>, \<^verbatim>\<open>float(text)\<close>, \<^verbatim>\<open>float(int)\<close>, and the text
  form of a float, a list or a tuple.  They are parameters of the model.
\<close>

record builtins =
  int_of_text :: "string \<Rightarrow> int option"
  int_of_float :: "pyfloat \<Rightarrow> error + int"
  float_of_text :: "string \<Rightarrow> pyfloat option"
  float_of_int :: "int \<Rightarrow> pyfloat option"
  repr_of :: "pyval \<Rightarrow> string"

subsection \<open>Text operations\<close>

definition upper_char :: "char \<Rightarrow> char" where
  "upper_char c =
     (case map_of (zip ''abcdefghijklmnopqrstuvwxyz'' ''ABCDEFGHIJKLMNOPQRSTUVWXYZ'') c of
        Some u \<Rightarrow> u
      | None \<Rightarrow> c)"

definition lower_char :: "char \<Rightarrow> char" where
  "lower_char c =
     (case map_of (zip ''ABCDEFGHIJKLMNOPQRSTUVWXYZ'' ''abcdefghijklmnopqrstuvwxyz'') c of
        Some l \<Rightarrow> l
      | None \<Rightarrow> c)"

definition upper :: "string \<Rightarrow> string" where
  "upper s = map upper_char s"

definition lower :: "string \<Rightarrow> string" where
  "lower s = map lower_char s"

text \<open>\<^verbatim>\<open>sep.join(parts)\<close>\<close>

fun join :: "string \<Rightarrow> string list \<Rightarrow> string" where
  "join sep [] = []"
| "join sep [p] = p"
| "join sep (p # q # ps) = p @ sep @ join sep (q # ps)"

text \<open>
  The characters that \<^verbatim>\<open>strip()\<close> removes: tab, line feed, vertical tab, form feed,
  carriage return, the four separators \<^verbatim>\<open>\x1c\<close> to \<^verbatim>\<open>\x1f\<close>, and space.
\<close>

definition isspace :: "char \<Rightarrow> bool" where
  "isspace c \<longleftrightarrow>
     c \<in> set [CHR 0x09, CHR 0x0A, CHR 0x0B, CHR 0x0C, CHR 0x0D,
               CHR 0x1C, CHR 0x1D, CHR 0x1E, CHR 0x1F, CHR '' '']"

definition strip :: "string \<Rightarrow> string" where
  "strip s = rev (dropWhile isspace (rev (dropWhile isspace s)))"

text \<open>
  \<^verbatim>\<open>value.split(sep)\<close> for a non-empty separator: the text is cut at the leftmost
  occurrences of \<open>sep\<close>, which do not overlap.  An empty separator raises \<^verbatim>\<open>ValueError\<close>.
\<close>

fun split_on :: "string \<Rightarrow> string \<Rightarrow> string list" where
  "split_on sep [] = [[]]"
| "split_on sep (c # cs) =
     (if sep \<noteq> [] \<and> prefix sep (c # cs)
      then [] # split_on sep (drop (length sep - 1) cs)
      else (case split_on sep cs of
              [] \<Rightarrow> [[c]]
            | p # ps \<Rightarrow> (c # p) # ps))"

definition split :: "string \<Rightarrow> string \<Rightarrow> error + string list" where
  "split s sep = (if sep = [] then Inl ValueError else Inr (split_on sep s))"

text \<open>\<^verbatim>\<open>key.split('.', 1)\<close> on a key that contains a dot.\<close>

definition split_dot :: "string \<Rightarrow> string \<times> string" where
  "split_dot key =
     (takeWhile (\<lambda>c. c \<noteq> CHR ''.'') key, tl (dropWhile (\<lambda>c. c \<noteq> CHR ''.'') key))"

text \<open>The decimal text of an integer.\<close>

fun show_nat :: "nat \<Rightarrow> string" where
  "show_nat n =
     (if n < 10 then [''0123456789'' ! n]
      else show_nat (n div 10) @ [''0123456789'' ! (n mod 10)])"

declare show_nat.simps [simp del]

definition show_int :: "int \<Rightarrow> string" where
  "show_int i = (if i < 0 then CHR ''-'' # show_nat (nat (- i)) else show_nat (nat i))"

text \<open>\<^verbatim>\<open>compat.text_type(value)\<close>\<close>

fun text_type :: "builtins \<Rightarrow> pyval \<Rightarrow> string" where
  "text_type B (PyText s) = s"
| "text_type B PyNone = ''None''"
| "text_type B (PyBool b) = (if b then ''True'' else ''False'')"
| "text_type B (PyInt i) = show_int i"
| "text_type B v = repr_of B v"

text \<open>\<^verbatim>\<open>int(value)\<close>, \<^verbatim>\<open>float(value)\<close> and \<^verbatim>\<open>list(value)\<close>\<close>

fun py_int :: "builtins \<Rightarrow> pyval \<Rightarrow> error + pyval" where
  "py_int B (PyInt i) = Inr (PyInt i)"
| "py_int B (PyBool b) = Inr (PyInt (if b then 1 else 0))"
| "py_int B (PyText s) =
     (case int_of_text B s of None \<Rightarrow> Inl ValueError | Some i \<Rightarrow> Inr (PyInt i))"
| "py_int B (PyFloat f) =
     (case int_of_float B f of Inl e \<Rightarrow> Inl e | Inr i \<Rightarrow> Inr (PyInt i))"
| "py_int B v = Inl TypeError"

fun py_float :: "builtins \<Rightarrow> pyval \<Rightarrow> error + pyval" where
  "py_float B (PyFloat f) = Inr (PyFloat f)"
| "py_float B (PyInt i) =
     (case float_of_int B i of None \<Rightarrow> Inl OverflowError | Some f \<Rightarrow> Inr (PyFloat f))"
| "py_float B (PyBool b) =
     (case float_of_int B (if b then 1 else 0) of
        None \<Rightarrow> Inl OverflowError
      | Some f \<Rightarrow> Inr (PyFloat f))"
| "py_float B (PyText s) =
     (case float_of_text B s of None \<Rightarrow> Inl ValueError | Some f \<Rightarrow> Inr (PyFloat f))"
| "py_float B v = Inl TypeError"

fun py_list :: "pyval \<Rightarrow> error + pyval" where
  "py_list (PyList xs) = Inr (PyList xs)"
| "py_list (PyTuple xs) = Inr (PyList xs)"
| "py_list (PyText s) = Inr (PyList (map (\<lambda>c. PyText [c]) s))"
| "py_list v = Inl TypeError"

text \<open>The \<^verbatim>\<open>isinstance\<close> tests of the accessors; a \<^verbatim>\<open>bool\<close> is an \<^verbatim>\<open>int\<close>.\<close>

fun isinstance_unicode :: "pyval \<Rightarrow> bool" where
  "isinstance_unicode (PyText s) = True"
| "isinstance_unicode v = False"

fun isinstance_bool :: "pyval \<Rightarrow> bool" where
  "isinstance_bool (PyBool b) = True"
| "isinstance_bool v = False"

fun isinstance_int :: "pyval \<Rightarrow> bool" where
  "isinstance_int (PyInt i) = True"
| "isinstance_int (PyBool b) = True"
| "isinstance_int v = False"

fun isinstance_float :: "pyval \<Rightarrow> bool" where
  "isinstance_float (PyFloat f) = True"
| "isinstance_float v = False"

fun isinstance_list_tuple :: "pyval \<Rightarrow> bool" where
  "isinstance_list_tuple (PyList xs) = True"
| "isinstance_list_tuple (PyTuple xs) = True"
| "isinstance_list_tuple v = False"

subsection \<open>The process environment and the file system\<close>

text \<open>
  What the constructor and the lookups read from outside: \<^verbatim>\<open>os.environ\<close>, the path
  functions of \<^verbatim>\<open>os.path\<close>, \<^verbatim>\<open>glob.glob\<close>, and what \<^verbatim>\<open>ConfigParser.read\<close> finds
  in a file: it cannot be opened (and is skipped), it does not parse (an exception), or it
  holds a table of entries.
\<close>

datatype file_read =
    Unreadable
  | Malformed
  | Parsed "string \<times> string \<rightharpoonup> string"

record world =
  environ :: "string \<rightharpoonup> string"
  expanduser :: "string \<Rightarrow> string"
  abspath :: "string \<Rightarrow> string"
  isdir :: "string \<Rightarrow> bool"
  glob :: "string \<Rightarrow> string list"
  parse_file :: "string \<Rightarrow> file_read"

text \<open>\<^verbatim>\<open>os.path.join(path, '*')\<close>\<close>

definition path_join_star :: "string \<Rightarrow> string" where
  "path_join_star path =
     (if path = [] \<or> last path = CHR ''/'' then path @ ''*'' else path @ ''/*'')"

subsection \<open>The getter\<close>

text \<open>\<^verbatim>\<open>ConfigKey = namedtuple('ConfigKey', ['section', 'entry', 'envvar', 'doc'])\<close>\<close>

type_synonym ConfigKey = "string \<times> string \<times> string \<times> string"

text \<open>
  The parser is the store that \<^verbatim>\<open>parser.get(section, key)\<close> reads: the text at a
  section and an option, or nothing where the parser raises \<^verbatim>\<open>NoSectionError\<close> or
  \<^verbatim>\<open>NoOptionError\<close>.  The class \<^verbatim>\<open>ConfigParser\<close> belongs to the standard library;
  the model keeps what the getter relies on, a table of entries by section and option
  that later files overwrite, and leaves out the library's value interpolation and its
  fallback from a named section to the section \<^verbatim>\<open>DEFAULT\<close>.
\<close>

type_synonym parser_store = "string \<times> string \<rightharpoonup> string"

record config =
  parser :: parser_store
  seen_keys :: "ConfigKey fset"
  namespace :: string
  defaults :: "string \<rightharpoonup> (string \<rightharpoonup> pyval)"
  search_files :: "string list"
  found_files :: "string list"

definition cg_env_key :: "string \<Rightarrow> string \<Rightarrow> string \<Rightarrow> string" where
  "cg_env_key ns key section =
     (if section \<noteq> []
      then join ''_'' (map upper [ns, section, key])
      else join ''_'' (map upper [ns, key]))"

text \<open>The first loop of \<^verbatim>\<open>__init__\<close>: \<^verbatim>\<open>None\<close> is skipped, every other path is made
  absolute, and a directory becomes the pattern of its entries.\<close>

fun collect_search_files :: "world \<Rightarrow> string option list \<Rightarrow> string list" where
  "collect_search_files w [] = []"
| "collect_search_files w (None # paths) = collect_search_files w paths"
| "collect_search_files w (Some path # paths) =
     (let path1 = abspath w (expanduser w path);
          path2 = (if isdir w path1 then path_join_star path1 else path1)
      in path2 # collect_search_files w paths)"

text \<open>The second loop of \<^verbatim>\<open>__init__\<close>.\<close>

fun final_config_files :: "world \<Rightarrow> string list \<Rightarrow> string list" where
  "final_config_files w [] = []"
| "final_config_files w (path # paths) =
     (let directory_files = glob w path
      in (if directory_files \<noteq> [] then sort directory_files else [])
         @ final_config_files w paths)"

text \<open>
  \<^verbatim>\<open>parser.read(filenames)\<close>: the files are read from left to right into the one store,
  an entry of a file replacing the entry at the same section and option; a file that
  cannot be opened is skipped; the result lists the files that were read.
\<close>

fun parser_read ::
  "world \<Rightarrow> parser_store \<Rightarrow> string list \<Rightarrow> error + (parser_store \<times> string list)" where
  "parser_read w st [] = Inr (st, [])"
| "parser_read w st (f # fs) =
     (case parse_file w f of
        Unreadable \<Rightarrow> parser_read w st fs
      | Malformed \<Rightarrow> Inl ParsingError
      | Parsed entries \<Rightarrow>
          (case parser_read w (st ++ entries) fs of
             Inl e \<Rightarrow> Inl e
           | Inr (st', ok) \<Rightarrow> Inr (st', f # ok)))"

definition cg_init ::
  "world \<Rightarrow> string \<Rightarrow> string option list \<Rightarrow> (string \<rightharpoonup> (string \<rightharpoonup> pyval)) option
     \<Rightarrow> error + config" where
  "cg_init w ns config_files dflts =
     (let extra_config_file = environ w (cg_env_key ns ''config'' []);
          sf = collect_search_files w (config_files @ [extra_config_file])
      in case parser_read w Map.empty (final_config_files w sf) of
           Inl e \<Rightarrow> Inl e
         | Inr (st, found) \<Rightarrow>
             Inr \<lparr> parser = st,
                   seen_keys = {||},
                   namespace = ns,
                   defaults = (case dflts of None \<Rightarrow> Map.empty | Some d \<Rightarrow> d),
                   search_files = sf,
                   found_files = found \<rparr>)"

definition cg_read_env :: "world \<Rightarrow> string \<Rightarrow> error + pyval" where
  "cg_read_env w key =
     (case environ w key of None \<Rightarrow> Inl NotFound | Some v \<Rightarrow> Inr (PyText v))"

definition cg_read_parser :: "config \<Rightarrow> string \<Rightarrow> string \<Rightarrow> error + pyval" where
  "cg_read_parser c config_section key =
     (case parser c (config_section, key) of
        None \<Rightarrow> Inl NotFound
      | Some v \<Rightarrow> Inr (PyText v))"

text \<open>\<^verbatim>\<open>self.defaults[section][key]\<close>, a \<^verbatim>\<open>KeyError\<close> at either level being nothing.\<close>

definition defaults_lookup :: "config \<Rightarrow> string \<Rightarrow> string \<Rightarrow> pyval option" where
  "defaults_lookup c section key =
     (case defaults c section of None \<Rightarrow> None | Some entries \<Rightarrow> entries key)"

definition cg_read :: "world \<Rightarrow> config \<Rightarrow> string \<Rightarrow> string \<Rightarrow> string \<Rightarrow> pyval \<Rightarrow> pyval" where
  "cg_read w c env_key section key dflt =
     (case cg_read_env w env_key of
        Inr v \<Rightarrow> v
      | Inl _ \<Rightarrow>
          (case cg_read_parser c section key of
             Inr v \<Rightarrow> v
           | Inl _ \<Rightarrow>
               (case defaults_lookup c section key of
                  Some v \<Rightarrow> v
                | None \<Rightarrow> dflt)))"

text \<open>The section and the entry that \<^verbatim>\<open>_get\<close> takes from a key.\<close>

definition key_parts :: "string \<Rightarrow> string \<times> string" where
  "key_parts key = (if CHR ''.'' \<in> set key then split_dot key else ([], key))"

definition cg_get :: "world \<Rightarrow> config \<Rightarrow> string \<Rightarrow> pyval \<Rightarrow> string \<Rightarrow> pyval \<times> config" where
  "cg_get w c key0 dflt doc =
     (let (section, key) = key_parts key0;
          env_key = cg_env_key (namespace c) key section;
          config_section = (if section \<noteq> [] then section else ''DEFAULT'');
          v = cg_read w c env_key config_section key dflt
      in (v, c\<lparr>seen_keys := finsert (config_section, key, env_key, doc) (seen_keys c)\<rparr>))"

text \<open>
  The accessors return the value or the exception, and the getter as the call leaves it.
  The deprecation warnings are not part of the model.
\<close>

definition get :: "world \<Rightarrow> config \<Rightarrow> string \<Rightarrow> pyval \<Rightarrow> string \<Rightarrow> (error + pyval) \<times> config" where
  "get w c key dflt doc =
     (if \<not> (dflt = PyNone \<or> isinstance_unicode dflt) then (Inl AssertionError, c)
      else (let (v, c') = cg_get w c key dflt doc in (Inr v, c')))"

definition getstr :: "world \<Rightarrow> config \<Rightarrow> string \<Rightarrow> pyval \<Rightarrow> string \<Rightarrow> (error + pyval) \<times> config" where
  "getstr w c key dflt doc =
     (if \<not> (dflt = PyNone \<or> isinstance_unicode dflt) then (Inl AssertionError, c)
      else (let (v, c') = cg_get w c key dflt doc in (Inr v, c')))"

definition getlist ::
  "world \<Rightarrow> config \<Rightarrow> string \<Rightarrow> pyval \<Rightarrow> string \<Rightarrow> string \<Rightarrow> (error + pyval) \<times> config" where
  "getlist w c key dflt doc sep =
     (if \<not> (isinstance_unicode dflt \<or> dflt = PyNone \<or> isinstance_list_tuple dflt)
      then (Inl AssertionError, c)
      else (let (v, c') = cg_get w c key dflt doc
            in case v of
                 PyText s \<Rightarrow>
                   (case split s sep of
                      Inl e \<Rightarrow> (Inl e, c')
                    | Inr pieces \<Rightarrow>
                        (let values1 = map strip pieces;
                             values2 = filter (\<lambda>entry. entry \<noteq> []) values1
                         in (Inr (PyList (map PyText values2)), c')))
               | PyNone \<Rightarrow> (Inr PyNone, c')
               | _ \<Rightarrow> (py_list v, c')))"

definition getbool ::
  "builtins \<Rightarrow> world \<Rightarrow> config \<Rightarrow> string \<Rightarrow> pyval \<Rightarrow> string \<Rightarrow> (error + pyval) \<times> config" where
  "getbool B w c key dflt doc =
     (if \<not> (dflt = PyNone \<or> isinstance_bool dflt) then (Inl AssertionError, c)
      else (let (v, c') = cg_get w c key dflt doc
            in if v = PyNone then (Inr PyNone, c')
               else (Inr (PyBool (lower (text_type B v) \<in> set [''on'', ''true'', ''yes'', ''1''])),
                     c')))"

definition getint ::
  "builtins \<Rightarrow> world \<Rightarrow> config \<Rightarrow> string \<Rightarrow> pyval \<Rightarrow> string \<Rightarrow> (error + pyval) \<times> config" where
  "getint B w c key dflt doc =
     (if \<not> (dflt = PyNone \<or> isinstance_int dflt) then (Inl AssertionError, c)
      else (let (v, c') = cg_get w c key dflt doc
            in if v = PyNone then (Inr PyNone, c') else (py_int B v, c')))"

definition getfloat ::
  "builtins \<Rightarrow> world \<Rightarrow> config \<Rightarrow> string \<Rightarrow> pyval \<Rightarrow> string \<Rightarrow> (error + pyval) \<times> config" where
  "getfloat B w c key dflt doc =
     (if \<not> (dflt = PyNone \<or> isinstance_float dflt) then (Inl AssertionError, c)
      else (let (v, c') = cg_get w c key dflt doc
            in if v = PyNone then (Inr PyNone, c') else (py_float B v, c')))"

definition list_keys :: "config \<Rightarrow> ConfigKey list" where
  "list_keys c = sorted_list_of_fset (seen_keys c)"

subsection \<open>Example inputs\<close>

text \<open>
  A process with no variable set, a directory \<^verbatim>\<open>/srv/app\<close> (the current directory) that
  holds two configuration files, and a getter with a default table that has both a section
  with the empty name and a section \<^verbatim>\<open>DEFAULT\<close>.
\<close>

definition example_world :: world where
  "example_world =
     \<lparr> environ = Map.empty,
       expanduser = (\<lambda>p. p),
       abspath = (\<lambda>p. if p = [] then ''/srv/app'' else p),
       isdir = (\<lambda>p. p = ''/srv/app''),
       glob = (\<lambda>p. if p = ''/srv/app/*'' then [''/srv/app/b.ini'', ''/srv/app/a.ini'']
                   else if p = ''/etc/app.ini'' then [''/etc/app.ini'']
                   else []),
       parse_file = (\<lambda>f. if f = ''/srv/app/a.ini''
                           then Parsed [(''DEFAULT'', ''k'') \<mapsto> ''va'', (''s'', ''x'') \<mapsto> ''1'']
                         else if f = ''/srv/app/b.ini''
                           then Parsed [(''DEFAULT'', ''k'') \<mapsto> ''vb'']
                         else if f = ''/etc/app.ini''
                           then Parsed [(''DEFAULT'', ''k'') \<mapsto> ''etc'', (''s'', ''y'') \<mapsto> ''2'']
                         else Unreadable) \<rparr>"

text \<open>The same process with the variable \<^verbatim>\<open>NS_CONFIG\<close> set to the empty text.\<close>

definition example_world_empty_override :: world where
  "example_world_empty_override = example_world\<lparr>environ := [''NS_CONFIG'' \<mapsto> []]\<rparr>"

definition example_config :: config where
  "example_config =
     \<lparr> parser = Map.empty,
       seen_keys = {||},
       namespace = ''ns'',
       defaults = [[] \<mapsto> [''k'' \<mapsto> PyText ''bare''],
                   ''DEFAULT'' \<mapsto> [''k'' \<mapsto> PyText ''dflt'']],
       search_files = [],
       found_files = [] \<rparr>"

definition example_builtins :: builtins where
  "example_builtins =
     \<lparr> int_of_text = [''42'' \<mapsto> 42],
       int_of_float = (\<lambda>f. Inl OverflowError),
       float_of_text = [''0.0'' \<mapsto> 0],
       float_of_int = (\<lambda>i. None),
       repr_of = (\<lambda>v. ''?'') \<rparr>"

section \<open>Properties\<close>

subsection \<open>Splitting, joining and stripping\<close>

lemma split_on_nonempty: "split_on sep s \<noteq> []"
  by (induction sep s rule: split_on.induct) (auto split: list.splits)

lemma join_Cons: "ps \<noteq> [] \<Longrightarrow> join sep (p # ps) = p @ sep @ join sep ps"
  by (cases ps) auto

lemma join_Cons_Cons: "join sep ((c # p) # ps) = c # join sep (p # ps)"
  by (cases ps) auto

lemma join_split_on: "sep \<noteq> [] \<Longrightarrow> join sep (split_on sep s) = s"
proof (induction sep s rule: split_on.induct)
  case (1 sep)
  then show ?case by simp
next
  case (2 sep c cs)
  show ?case
  proof (cases "prefix sep (c # cs)")
    case True
    then obtain rest where rest: "c # cs = sep @ rest"
      by (auto simp: prefix_def)
    with \<open>sep \<noteq> []\<close> have d: "drop (length sep - 1) cs = rest"
      by (cases sep) auto
    have s: "split_on sep (c # cs) = [] # split_on sep rest"
      using True \<open>sep \<noteq> []\<close> d by simp
    have "join sep (split_on sep rest) = rest"
      using 2(1) True \<open>sep \<noteq> []\<close> d by simp
    then show ?thesis
      unfolding s by (simp add: join_Cons split_on_nonempty rest)
  next
    case False
    with 2 show ?thesis
      by (auto simp: join_Cons_Cons split_on_nonempty split: list.splits)
  qed
qed

lemma strip_ends:
  assumes "strip s \<noteq> []"
  shows "\<not> isspace (hd (strip s)) \<and> \<not> isspace (last (strip s))"
proof -
  let ?t = "dropWhile isspace s"
  let ?u = "dropWhile isspace (rev ?t)"
  have st: "strip s = rev ?u" by (simp add: strip_def)
  with assms have u: "?u \<noteq> []" by simp
  have t: "?t \<noteq> []"
  proof
    assume "?t = []"
    then have "?u = []" by (simp only: rev.simps dropWhile.simps)
    with u show False by contradiction
  qed
  have "\<not> isspace (hd ?u)" using u by (rule hd_dropWhile)
  then have l: "\<not> isspace (last (strip s))"
    using u by (simp add: st last_rev)
  have "rev ?t = takeWhile isspace (rev ?t) @ ?u" by simp
  then have "last (rev ?t) = last ?u"
    using u by (metis last_appendR)
  then have "last ?u = hd ?t"
    using t by (simp add: last_rev)
  moreover have "\<not> isspace (hd ?t)" using t by (rule hd_dropWhile)
  ultimately have "\<not> isspace (hd (strip s))"
    using u by (simp add: st hd_rev)
  with l show ?thesis by simp
qed

lemma split_on_char_free: "p \<in> set (split_on [d] s) \<Longrightarrow> d \<notin> set p"
proof (induction "[d]" s arbitrary: p rule: split_on.induct)
  case 1
  then show ?case by simp
next
  case (2 c cs)
  then show ?case
    by (auto split: if_splits list.splits)
qed

lemma strip_decompose:
  "\<exists>a b. s = a @ strip s @ b \<and> list_all isspace a \<and> list_all isspace b"
proof -
  let ?t = "dropWhile isspace s"
  have "s = takeWhile isspace s @ ?t" by simp
  moreover have "?t = strip s @ rev (takeWhile isspace (rev ?t))"
    unfolding strip_def
    by (metis rev_append rev_rev_ident takeWhile_dropWhile_id)
  moreover have "list_all isspace (takeWhile isspace s)"
    by (simp add: list_all_iff) (meson set_takeWhileD)
  moreover have "list_all isspace (rev (takeWhile isspace (rev ?t)))"
    by (simp add: list_all_iff) (meson set_takeWhileD)
  ultimately show ?thesis by metis
qed

lemma getlist_example_pieces:
  "filter (\<lambda>p. p \<noteq> []) (map strip (split_on '','' '' a, b ,,c '')) = [''a'', ''b'', ''c'']"
  by (simp add: strip_def isspace_def)

subsection \<open>The lookup chain\<close>

lemma key_parts_dotless: "CHR ''.'' \<notin> set key0 \<Longrightarrow> key_parts key0 = ([], key0)"
  by (simp add: key_parts_def)

lemma cg_get_value:
  "key_parts key0 = (section, key) \<Longrightarrow>
   fst (cg_get w c key0 dflt doc) =
     cg_read w c (cg_env_key (namespace c) key section)
       (if section \<noteq> [] then section else ''DEFAULT'') key dflt"
  by (simp add: cg_get_def Let_def)

lemma cg_get_state:
  "key_parts key0 = (section, key) \<Longrightarrow>
   snd (cg_get w c key0 dflt doc) =
     c\<lparr>seen_keys :=
         finsert (if section \<noteq> [] then section else ''DEFAULT'', key,
                  cg_env_key (namespace c) key section, doc) (seen_keys c)\<rparr>"
  by (simp add: cg_get_def Let_def)

lemma cg_read_env_set:
  "environ w env_key = Some v \<Longrightarrow> cg_read w c env_key section key dflt = PyText v"
  by (simp add: cg_read_def cg_read_env_def)

lemma cg_read_env_unset:
  "environ w env_key = None \<Longrightarrow>
   cg_read w c env_key section key dflt =
     (case parser c (section, key) of
        Some v \<Rightarrow> PyText v
      | None \<Rightarrow> (case defaults_lookup c section key of Some v \<Rightarrow> v | None \<Rightarrow> dflt))"
  by (simp add: cg_read_def cg_read_env_def cg_read_parser_def split: option.splits)

lemma cg_read_absent:
  "environ w env_key = None \<Longrightarrow> parser c (section, key) = None \<Longrightarrow>
   defaults_lookup c section key = None \<Longrightarrow>
   cg_read w c env_key section key dflt = dflt"
  by (simp add: cg_read_env_unset)

lemma cg_read_same_sources:
  "parser c' = parser c \<Longrightarrow>
   defaults_lookup c' section key = defaults_lookup c section key \<Longrightarrow>
   cg_read w c' env_key section key dflt = cg_read w c env_key section key dflt"
  by (simp add: cg_read_def cg_read_parser_def cong: sum.case_cong)

text \<open>The example getter is the one the constructor builds when no file is found.\<close>

lemma example_config_constructed:
  "cg_init example_world ''ns'' []
     (Some [[] \<mapsto> [''k'' \<mapsto> PyText ''bare''], ''DEFAULT'' \<mapsto> [''k'' \<mapsto> PyText ''dflt'']])
   = Inr example_config"
  by (simp add: cg_init_def example_world_def example_config_def)

lemma example_key_parts: "key_parts ''k'' = ([], ''k'')"
  by (simp add: key_parts_def)

lemma example_env_key: "cg_env_key ''ns'' ''k'' [] = ''NS_K''"
  by (simp add: cg_env_key_def upper_def upper_char_def)

text \<open>
  C1 (as stated, refuted).  With nothing in the environment and nothing in the parser, and a
  default table holding \<^verbatim>\<open>{'': {'k': 'bare'}, 'DEFAULT': {'k': 'dflt'}}\<close>, the dotless
  key \<^verbatim>\<open>k\<close> resolves to \<^verbatim>\<open>'dflt'\<close>: the table is read at the section \<^verbatim>\<open>DEFAULT\<close>, not
  at the empty section name.
\<close>

theorem C1_bare_section_counterexample:
  "environ example_world (cg_env_key (namespace example_config) ''k'' []) = None
   \<and> parser example_config (''DEFAULT'', ''k'') = None
   \<and> defaults_lookup example_config [] ''k'' = Some (PyText ''bare'')
   \<and> defaults_lookup example_config ''DEFAULT'' ''k'' = Some (PyText ''dflt'')
   \<and> fst (cg_get example_world example_config ''k'' (PyText ''fallback'') []) = PyText ''dflt''
   \<and> fst (getstr example_world example_config ''k'' (PyText ''fallback'') [])
       = Inr (PyText ''dflt'')"
  by (simp add: getstr_def cg_get_def key_parts_def cg_read_def cg_read_env_def
      cg_read_parser_def defaults_lookup_def example_world_def example_config_def Let_def)

text \<open>
  C1 (amended).  For every key whose value is absent from the environment and from the
  parser, the default table is read at the same section name as the parser: the section
  token of the key with the empty token replaced by \<^verbatim>\<open>DEFAULT\<close>.  A dotless key \<open>K\<close> reads
  \<^verbatim>\<open>defaults['DEFAULT'][K]\<close>, and what the table holds under the empty section name never
  changes the value of any lookup.
\<close>

theorem C1_default_table_section:
  assumes "key_parts key0 = (section, key)"
    and "config_section = (if section \<noteq> [] then section else ''DEFAULT'')"
    and "environ w (cg_env_key (namespace c) key section) = None"
    and "parser c (config_section, key) = None"
  shows "fst (cg_get w c key0 dflt doc) =
           (case defaults c config_section of
              None \<Rightarrow> dflt
            | Some entries \<Rightarrow> (case entries key of None \<Rightarrow> dflt | Some v \<Rightarrow> v))
         \<and> (CHR ''.'' \<notin> set key0 \<longrightarrow>
              fst (cg_get w c key0 dflt doc) =
                (case defaults c ''DEFAULT'' of
                   None \<Rightarrow> dflt
                 | Some entries \<Rightarrow> (case entries key0 of None \<Rightarrow> dflt | Some v \<Rightarrow> v)))
         \<and> fst (cg_get w (c\<lparr>defaults := (defaults c)([] := t)\<rparr>) key0 dflt doc) =
             fst (cg_get w c key0 dflt doc)"
proof -
  have ne: "config_section \<noteq> []"
    using assms(2) by auto
  have val: "fst (cg_get w c key0 dflt doc) =
      (case defaults_lookup c config_section key of Some v \<Rightarrow> v | None \<Rightarrow> dflt)"
    using assms by (simp add: cg_get_value cg_read_env_unset del: if_split split del: if_split)
  have first: "fst (cg_get w c key0 dflt doc) =
      (case defaults c config_section of
         None \<Rightarrow> dflt
       | Some entries \<Rightarrow> (case entries key of None \<Rightarrow> dflt | Some v \<Rightarrow> v))"
    unfolding val by (simp add: defaults_lookup_def split: option.splits)
  have second: "fst (cg_get w c key0 dflt doc) =
      (case defaults c ''DEFAULT'' of
         None \<Rightarrow> dflt
       | Some entries \<Rightarrow> (case entries key0 of None \<Rightarrow> dflt | Some v \<Rightarrow> v))"
    if "CHR ''.'' \<notin> set key0"
  proof -
    from that assms(1) have "section = []" "key = key0"
      by (simp_all add: key_parts_dotless)
    with first assms(2) show ?thesis by (simp split: option.splits)
  qed
  have lookup: "defaults_lookup (c\<lparr>defaults := (defaults c)([] := t)\<rparr>) config_section key =
      defaults_lookup c config_section key"
    using ne by (simp add: defaults_lookup_def)
  have third: "fst (cg_get w (c\<lparr>defaults := (defaults c)([] := t)\<rparr>) key0 dflt doc) =
      fst (cg_get w c key0 dflt doc)"
  proof -
    have "cg_read w (c\<lparr>defaults := (defaults c)([] := t)\<rparr>)
            (cg_env_key (namespace c) key section) config_section key dflt =
          cg_read w c (cg_env_key (namespace c) key section) config_section key dflt"
      by (rule cg_read_same_sources) (simp_all add: lookup)
    then show ?thesis
      using assms(1,2) by (simp add: cg_get_value del: if_split split del: if_split)
  qed
  from first second third show ?thesis by blast
qed

theorem C1_default_table_section_witness:
  "fst (cg_get example_world example_config ''k'' (PyText ''fallback'') []) = PyText ''dflt''
   \<and> fst (cg_get example_world
            (example_config\<lparr>defaults := (defaults example_config)([] := None)\<rparr>)
            ''k'' (PyText ''fallback'') []) = PyText ''dflt''"
proof -
  have a: "key_parts ''k'' = ([], ''k'')" by (rule example_key_parts)
  have b: "''DEFAULT'' = (if ([]::string) \<noteq> [] then [] else ''DEFAULT'')" by simp
  have c: "environ example_world (cg_env_key (namespace example_config) ''k'' []) = None"
    by (simp add: example_world_def)
  have d: "parser example_config (''DEFAULT'', ''k'') = None"
    by (simp add: example_config_def)
  have e: "defaults example_config ''DEFAULT'' = Some [''k'' \<mapsto> PyText ''dflt'']"
    by (simp add: example_config_def)
  from C1_default_table_section [OF a b c d, of "PyText ''fallback''" "[]" None] e
  show ?thesis by simp
qed

subsection \<open>The environment comes first\<close>

lemma getstr_result:
  "dflt = PyNone \<or> isinstance_unicode dflt \<Longrightarrow>
   getstr w c key0 dflt doc =
     (Inr (fst (cg_get w c key0 dflt doc)), snd (cg_get w c key0 dflt doc))"
  by (auto simp: getstr_def split: prod.splits)

text \<open>
  C2.  For every key whose environment variable is set, the empty text included,
  \<^verbatim>\<open>getstr\<close> returns the value of the variable as text, whatever the parser and the
  default table of the getter hold.
\<close>

theorem C2_getstr_environment_wins:
  assumes "key_parts key0 = (section, key)"
    and "environ w (cg_env_key (namespace c) key section) = Some v"
    and "dflt = PyNone \<or> isinstance_unicode dflt"
  shows "fst (getstr w c key0 dflt doc) = Inr (PyText v)
         \<and> fst (getstr w (c\<lparr>parser := p, defaults := d\<rparr>) key0 dflt doc) = Inr (PyText v)"
proof -
  have "fst (getstr w c' key0 dflt doc) = Inr (PyText v)" if "namespace c' = namespace c" for c'
    using assms that
    by (simp add: getstr_result cg_get_value cg_read_env_set del: if_split split del: if_split)
  from this [of c] this [of "c\<lparr>parser := p, defaults := d\<rparr>"] show ?thesis
    by simp
qed

theorem C2_getstr_environment_wins_witness:
  "fst (getstr (example_world\<lparr>environ := [''NS_K'' \<mapsto> []]\<rparr>) example_config
         ''k'' (PyText ''fallback'') []) = Inr (PyText [])
   \<and> fst (getstr (example_world\<lparr>environ := [''NS_K'' \<mapsto> []]\<rparr>)
           (example_config\<lparr>parser := [(''DEFAULT'', ''k'') \<mapsto> ''file''],
                            defaults := Map.empty\<rparr>)
           ''k'' (PyText ''fallback'') []) = Inr (PyText [])"
proof -
  have a: "key_parts ''k'' = ([], ''k'')" by (rule example_key_parts)
  have b: "environ (example_world\<lparr>environ := [''NS_K'' \<mapsto> []]\<rparr>)
             (cg_env_key (namespace example_config) ''k'' []) = Some []"
    by (simp add: example_config_def example_env_key)
  have c: "PyText ''fallback'' = PyNone \<or> isinstance_unicode (PyText ''fallback'')"
    by simp
  from C2_getstr_environment_wins [OF a b c] show ?thesis
    by blast
qed

subsection \<open>The accessors\<close>

lemma getlist_result:
  "isinstance_unicode dflt \<or> dflt = PyNone \<or> isinstance_list_tuple dflt \<Longrightarrow>
   getlist w c key0 dflt doc sep =
     ((case fst (cg_get w c key0 dflt doc) of
         PyText s \<Rightarrow>
           (case split s sep of
              Inl e \<Rightarrow> Inl e
            | Inr pieces \<Rightarrow>
                Inr (PyList (map PyText (filter (\<lambda>entry. entry \<noteq> []) (map strip pieces)))))
       | PyNone \<Rightarrow> Inr PyNone
       | v \<Rightarrow> py_list v),
      snd (cg_get w c key0 dflt doc))"
  by (auto simp: getlist_def split: prod.splits pyval.splits sum.splits)

lemma getbool_result:
  "dflt = PyNone \<or> isinstance_bool dflt \<Longrightarrow>
   getbool B w c key0 dflt doc =
     ((if fst (cg_get w c key0 dflt doc) = PyNone then Inr PyNone
       else Inr (PyBool (lower (text_type B (fst (cg_get w c key0 dflt doc)))
                          \<in> set [''on'', ''true'', ''yes'', ''1'']))),
      snd (cg_get w c key0 dflt doc))"
  by (auto simp: getbool_def split: prod.splits)

lemma getint_result:
  "dflt = PyNone \<or> isinstance_int dflt \<Longrightarrow>
   getint B w c key0 dflt doc =
     ((if fst (cg_get w c key0 dflt doc) = PyNone then Inr PyNone
       else py_int B (fst (cg_get w c key0 dflt doc))),
      snd (cg_get w c key0 dflt doc))"
  by (auto simp: getint_def split: prod.splits)

lemma getfloat_result:
  "dflt = PyNone \<or> isinstance_float dflt \<Longrightarrow>
   getfloat B w c key0 dflt doc =
     ((if fst (cg_get w c key0 dflt doc) = PyNone then Inr PyNone
       else py_float B (fst (cg_get w c key0 dflt doc))),
      snd (cg_get w c key0 dflt doc))"
  by (auto simp: getfloat_def split: prod.splits)

lemma lower_True: "lower ''True'' = ''true''"
  by (simp add: lower_def lower_char_def)

lemma lower_False: "lower ''False'' = ''false''"
  by (simp add: lower_def lower_char_def)

text \<open>
  C9.  Each accessor checks the type of its default first.  When the check fails the call
  raises \<^verbatim>\<open>AssertionError\<close> and returns the getter as it was: the outcome does not
  depend on the environment, the parser or the default table, and no key is recorded.
\<close>

theorem C9_invalid_default_raises_first:
  "(\<not> (dflt = PyNone \<or> isinstance_unicode dflt) \<longrightarrow>
      getstr w c key0 dflt doc = (Inl AssertionError, c)
      \<and> get w c key0 dflt doc = (Inl AssertionError, c))
   \<and> (\<not> (isinstance_unicode dflt \<or> dflt = PyNone \<or> isinstance_list_tuple dflt) \<longrightarrow>
      getlist w c key0 dflt doc sep = (Inl AssertionError, c))
   \<and> (\<not> (dflt = PyNone \<or> isinstance_bool dflt) \<longrightarrow>
      getbool B w c key0 dflt doc = (Inl AssertionError, c))
   \<and> (\<not> (dflt = PyNone \<or> isinstance_int dflt) \<longrightarrow>
      getint B w c key0 dflt doc = (Inl AssertionError, c))
   \<and> (\<not> (dflt = PyNone \<or> isinstance_float dflt) \<longrightarrow>
      getfloat B w c key0 dflt doc = (Inl AssertionError, c))"
  by (simp add: getstr_def get_def getlist_def getbool_def getint_def getfloat_def)

theorem C9_invalid_default_raises_first_witness:
  "getstr (example_world\<lparr>environ := [''NS_K'' \<mapsto> ''7'']\<rparr>) example_config ''k'' (PyInt 7) []
     = (Inl AssertionError, example_config)
   \<and> getlist (example_world\<lparr>environ := [''NS_K'' \<mapsto> ''7'']\<rparr>) example_config ''k''
       (PyInt 7) [] '','' = (Inl AssertionError, example_config)
   \<and> getbool example_builtins (example_world\<lparr>environ := [''NS_K'' \<mapsto> ''7'']\<rparr>)
       example_config ''k'' (PyInt 7) [] = (Inl AssertionError, example_config)
   \<and> getint example_builtins (example_world\<lparr>environ := [''NS_K'' \<mapsto> ''7'']\<rparr>)
       example_config ''k'' (PyText ''7'') [] = (Inl AssertionError, example_config)
   \<and> getfloat example_builtins (example_world\<lparr>environ := [''NS_K'' \<mapsto> ''7'']\<rparr>)
       example_config ''k'' (PyInt 7) [] = (Inl AssertionError, example_config)
   \<and> seen_keys example_config = {||}"
  using C9_invalid_default_raises_first
          [of "PyInt 7" "example_world\<lparr>environ := [''NS_K'' \<mapsto> ''7'']\<rparr>" example_config
              "''k''" "[]" "'',''" example_builtins]
        C9_invalid_default_raises_first
          [of "PyText ''7''" "example_world\<lparr>environ := [''NS_K'' \<mapsto> ''7'']\<rparr>" example_config
              "''k''" "[]" "'',''" example_builtins]
  by (simp add: example_config_def)

text \<open>
  C10.  When the value that \<^verbatim>\<open>getint\<close> or \<^verbatim>\<open>getfloat\<close> resolves is a text that the
  conversion rejects, the call raises \<^verbatim>\<open>ValueError\<close> after the lookup: the getter it
  leaves behind holds the record of the key, so a key not seen before changes what
  \<^verbatim>\<open>list_keys\<close> returns.
\<close>

theorem C10_coercion_error_after_lookup:
  assumes "key_parts key0 = (section, key)"
    and "fst (cg_get w c key0 dflt doc) = PyText s"
    and "seen = (if section \<noteq> [] then section else ''DEFAULT'', key,
                 cg_env_key (namespace c) key section, doc)"
  shows "((dflt = PyNone \<or> isinstance_int dflt) \<and> int_of_text B s = None \<longrightarrow>
            getint B w c key0 dflt doc
              = (Inl ValueError, c\<lparr>seen_keys := finsert seen (seen_keys c)\<rparr>)
            \<and> seen |\<in>| seen_keys (snd (getint B w c key0 dflt doc))
            \<and> (seen |\<notin>| seen_keys c \<longrightarrow>
                 list_keys (snd (getint B w c key0 dflt doc)) \<noteq> list_keys c))
       \<and> ((dflt = PyNone \<or> isinstance_float dflt) \<and> float_of_text B s = None \<longrightarrow>
            getfloat B w c key0 dflt doc
              = (Inl ValueError, c\<lparr>seen_keys := finsert seen (seen_keys c)\<rparr>)
            \<and> seen |\<in>| seen_keys (snd (getfloat B w c key0 dflt doc))
            \<and> (seen |\<notin>| seen_keys c \<longrightarrow>
                 list_keys (snd (getfloat B w c key0 dflt doc)) \<noteq> list_keys c))"
proof -
  let ?c' = "c\<lparr>seen_keys := finsert seen (seen_keys c)\<rparr>"
  have st: "snd (cg_get w c key0 dflt doc) = ?c'"
    using assms(1,3) by (simp add: cg_get_state del: if_split split del: if_split)
  have changed: "list_keys ?c' \<noteq> list_keys c" if "seen |\<notin>| seen_keys c"
  proof
    assume "list_keys ?c' = list_keys c"
    then have "set (list_keys ?c') = set (list_keys c)" by simp
    then have "fset (finsert seen (seen_keys c)) = fset (seen_keys c)"
      by (simp add: list_keys_def)
    with that show False by auto
  qed
  have i: "getint B w c key0 dflt doc = (Inl ValueError, ?c')"
    if "dflt = PyNone \<or> isinstance_int dflt" "int_of_text B s = None"
    using that assms(2) st by (simp add: getint_result)
  have f: "getfloat B w c key0 dflt doc = (Inl ValueError, ?c')"
    if "dflt = PyNone \<or> isinstance_float dflt" "float_of_text B s = None"
    using that assms(2) st by (simp add: getfloat_result)
  show ?thesis
    using i f changed by simp
qed

theorem C10_coercion_error_after_lookup_witness:
  "getint example_builtins (example_world\<lparr>environ := [''NS_K'' \<mapsto> ''4x2'']\<rparr>) example_config
     ''k'' (PyInt 0) []
     = (Inl ValueError, example_config\<lparr>seen_keys := {|(''DEFAULT'', ''k'', ''NS_K'', [])|}\<rparr>)
   \<and> getfloat example_builtins (example_world\<lparr>environ := [''NS_K'' \<mapsto> ''4x2'']\<rparr>)
       example_config ''k'' (PyFloat 0) []
       = (Inl ValueError, example_config\<lparr>seen_keys := {|(''DEFAULT'', ''k'', ''NS_K'', [])|}\<rparr>)
   \<and> list_keys (snd (getint example_builtins
         (example_world\<lparr>environ := [''NS_K'' \<mapsto> ''4x2'']\<rparr>) example_config ''k'' (PyInt 0) []))
       \<noteq> list_keys example_config"
proof -
  let ?w = "example_world\<lparr>environ := [''NS_K'' \<mapsto> ''4x2'']\<rparr>"
  have a: "key_parts ''k'' = ([], ''k'')" by (rule example_key_parts)
  have ns: "namespace example_config = ''ns''" by (simp add: example_config_def)
  have b: "fst (cg_get ?w example_config ''k'' d []) = PyText ''4x2''" for d
    by (simp add: cg_get_value [OF a] ns example_env_key cg_read_env_set)
  have k: "(''DEFAULT'', ''k'', ''NS_K'', []) =
      (if ([]::string) \<noteq> [] then [] else ''DEFAULT'', ''k'',
       cg_env_key (namespace example_config) ''k'' [], [])"
    by (simp add: ns example_env_key)
  have e: "seen_keys example_config = {||}" by (simp add: example_config_def)
  have n: "int_of_text example_builtins ''4x2'' = None"
          "float_of_text example_builtins ''4x2'' = None"
    by (simp_all add: example_builtins_def)
  from C10_coercion_error_after_lookup [OF a b k, of "PyInt 0" example_builtins]
       C10_coercion_error_after_lookup [OF a b k, of "PyFloat 0" example_builtins] n e
  show ?thesis by auto
qed

text \<open>
  C6 (as stated, refuted).  The key \<^verbatim>\<open>zz\<close> is in no source, so the value resolved for
  it is the default, here the tuple \<^verbatim>\<open>('x',)\<close>.  \<^verbatim>\<open>getlist\<close> returns the list
  \<^verbatim>\<open>['x']\<close>, which is not the tuple: a resolved sequence goes through \<^verbatim>\<open>list()\<close>.
\<close>

theorem C6_tuple_counterexample:
  "fst (cg_get example_world example_config ''zz'' (PyTuple [PyText ''x'']) [])
     = PyTuple [PyText ''x'']
   \<and> fst (getlist example_world example_config ''zz'' (PyTuple [PyText ''x'']) [] '','')
       = Inr (PyList [PyText ''x''])
   \<and> fst (getlist example_world example_config ''zz'' (PyTuple [PyText ''x'']) [] '','')
       \<noteq> Inr (fst (cg_get example_world example_config ''zz'' (PyTuple [PyText ''x'']) []))"
  by (simp add: getlist_def cg_get_def key_parts_def cg_read_def cg_read_env_def
      cg_read_parser_def defaults_lookup_def example_world_def example_config_def Let_def)

text \<open>
  C6 (amended).  On a resolved text \<^verbatim>\<open>getlist\<close> splits at the non-empty separator (the
  pieces, joined by the separator, give the text back, and no piece holds a one-character
  separator), strips each piece (what is removed at either end is whitespace, and no
  stripped piece starts or ends with whitespace) and drops the empty ones, keeping the
  order; on \<^verbatim>\<open>" a, b ,,c "\<close> with a comma it returns \<^verbatim>\<open>["a", "b", "c"]\<close>.  A resolved
  list comes back as an equal list, a resolved tuple as the list of its elements, and
  \<^verbatim>\<open>None\<close> as \<^verbatim>\<open>None\<close>.
\<close>

theorem C6_getlist_pieces:
  assumes "isinstance_unicode dflt \<or> dflt = PyNone \<or> isinstance_list_tuple dflt"
    and "v = fst (cg_get w c key0 dflt doc)"
  shows "(v = PyText s \<and> sep \<noteq> [] \<longrightarrow>
            fst (getlist w c key0 dflt doc sep) =
              Inr (PyList (map PyText (filter (\<lambda>p. p \<noteq> []) (map strip (split_on sep s)))))
            \<and> join sep (split_on sep s) = s
            \<and> (\<forall>d. sep = [d] \<longrightarrow> (\<forall>p \<in> set (split_on sep s). d \<notin> set p))
            \<and> (\<forall>p \<in> set (split_on sep s).
                  \<exists>a b. p = a @ strip p @ b \<and> list_all isspace a \<and> list_all isspace b)
            \<and> (\<forall>p \<in> set (map strip (split_on sep s)).
                  p = [] \<or> (\<not> isspace (hd p) \<and> \<not> isspace (last p))))
         \<and> (v = PyText '' a, b ,,c '' \<longrightarrow>
              fst (getlist w c key0 dflt doc '','') =
                Inr (PyList [PyText ''a'', PyText ''b'', PyText ''c'']))
         \<and> (v = PyList xs \<or> v = PyTuple xs \<longrightarrow>
              fst (getlist w c key0 dflt doc sep) = Inr (PyList xs))
         \<and> (v = PyNone \<longrightarrow> fst (getlist w c key0 dflt doc sep) = Inr PyNone)"
proof -
  note r = getlist_result [OF assms(1), of w c key0 doc]
  have on_text: "fst (getlist w c key0 dflt doc sep') =
      Inr (PyList (map PyText (filter (\<lambda>p. p \<noteq> []) (map strip (split_on sep' s')))))"
    if "v = PyText s'" "sep' \<noteq> []" for s' sep'
    using that assms(2) by (simp add: r split_def)
  have ends: "\<forall>p \<in> set (map strip (split_on sep s)).
      p = [] \<or> (\<not> isspace (hd p) \<and> \<not> isspace (last p))"
    using strip_ends by auto
  have example: "fst (getlist w c key0 dflt doc '','') =
      Inr (PyList [PyText ''a'', PyText ''b'', PyText ''c''])"
    if "v = PyText '' a, b ,,c ''"
    using on_text [OF that, of "'',''"] by (simp only: getlist_example_pieces) simp
  have seq: "fst (getlist w c key0 dflt doc sep) = Inr (PyList xs)"
    if "v = PyList xs \<or> v = PyTuple xs"
    using that assms(2) by (auto simp: r)
  have none: "fst (getlist w c key0 dflt doc sep) = Inr PyNone" if "v = PyNone"
    using that assms(2) by (simp add: r)
  have cut: "\<forall>d. sep = [d] \<longrightarrow> (\<forall>p \<in> set (split_on sep s). d \<notin> set p)"
    using split_on_char_free by blast
  have stripped: "\<forall>p \<in> set (split_on sep s).
      \<exists>a b. p = a @ strip p @ b \<and> list_all isspace a \<and> list_all isspace b"
    using strip_decompose by blast
  have first: "fst (getlist w c key0 dflt doc sep) =
        Inr (PyList (map PyText (filter (\<lambda>p. p \<noteq> []) (map strip (split_on sep s)))))
      \<and> join sep (split_on sep s) = s" if "v = PyText s" "sep \<noteq> []"
    using on_text [OF that] join_split_on [OF that(2)] by simp
  show ?thesis
    using first cut stripped ends example seq none by blast
qed

theorem C6_getlist_pieces_witness:
  "fst (getlist (example_world\<lparr>environ := [''NS_K'' \<mapsto> '' a, b ,,c '']\<rparr>) example_config
          ''k'' (PyTuple []) [] '','')
     = Inr (PyList [PyText ''a'', PyText ''b'', PyText ''c''])
   \<and> join '','' (split_on '','' '' a, b ,,c '') = '' a, b ,,c ''
   \<and> fst (getlist example_world example_config ''zz'' (PyTuple [PyText ''x'']) [] '','')
       = Inr (PyList [PyText ''x''])
   \<and> fst (getlist example_world example_config ''zz'' PyNone [] '','') = Inr PyNone"
proof -
  let ?w = "example_world\<lparr>environ := [''NS_K'' \<mapsto> '' a, b ,,c '']\<rparr>"
  have ns: "namespace example_config = ''ns''" by (simp add: example_config_def)
  have a: "PyText '' a, b ,,c '' = fst (cg_get ?w example_config ''k'' (PyTuple []) [])"
    by (simp add: cg_get_value [OF example_key_parts] ns example_env_key cg_read_env_set)
  have zz: "key_parts ''zz'' = ([], ''zz'')" by (simp add: key_parts_def)
  have b: "d = fst (cg_get example_world example_config ''zz'' d [])" for d
    by (simp add: cg_get_value [OF zz] cg_read_absent defaults_lookup_def
        example_world_def example_config_def)
  have t: "isinstance_unicode (PyTuple ys) \<or> PyTuple ys = PyNone
      \<or> isinstance_list_tuple (PyTuple ys)" for ys
    by simp
  have n: "isinstance_unicode PyNone \<or> PyNone = PyNone \<or> isinstance_list_tuple PyNone"
    by simp
  note r1 = C6_getlist_pieces [OF t a, where s = "'' a, b ,,c ''" and sep = "'',''"]
  note r2 = C6_getlist_pieces [OF t [of "[PyText ''x'']"] b, where sep = "'',''"
      and xs = "[PyText ''x'']"]
  note r3 = C6_getlist_pieces [OF n b, where sep = "'',''"]
  have "fst (getlist ?w example_config ''k'' (PyTuple []) [] '','')
      = Inr (PyList [PyText ''a'', PyText ''b'', PyText ''c''])"
    using r1 by blast
  moreover have "join '','' (split_on '','' '' a, b ,,c '') = '' a, b ,,c ''"
    using r1 by blast
  moreover have "fst (getlist example_world example_config ''zz'' (PyTuple [PyText ''x'']) []
      '','') = Inr (PyList [PyText ''x''])"
    using r2 by blast
  moreover have "fst (getlist example_world example_config ''zz'' PyNone [] '','') = Inr PyNone"
    using r3 by blast
  ultimately show ?thesis by blast
qed

text \<open>
  C7.  \<^verbatim>\<open>getbool\<close> returns \<^verbatim>\<open>None\<close> for a resolved \<^verbatim>\<open>None\<close>; for any other resolved
  value it returns whether the lower-cased text form of the value is one of \<^verbatim>\<open>on\<close>,
  \<^verbatim>\<open>true\<close>, \<^verbatim>\<open>yes\<close>, \<^verbatim>\<open>1\<close>.  The texts \<^verbatim>\<open>on\<close>, \<^verbatim>\<open>TRUE\<close>, \<^verbatim>\<open>Yes\<close> and \<^verbatim>\<open>1\<close> give
  true.
\<close>

theorem C7_getbool_truth_values:
  assumes "dflt = PyNone \<or> isinstance_bool dflt"
    and "v = fst (cg_get w c key0 dflt doc)"
  shows "(v = PyNone \<longrightarrow> fst (getbool B w c key0 dflt doc) = Inr PyNone)
         \<and> (v \<noteq> PyNone \<longrightarrow>
              fst (getbool B w c key0 dflt doc) =
                Inr (PyBool (lower (text_type B v) \<in> {''on'', ''true'', ''yes'', ''1''})))
         \<and> (v = PyText s \<longrightarrow>
              fst (getbool B w c key0 dflt doc) =
                Inr (PyBool (lower s = ''on'' \<or> lower s = ''true''
                             \<or> lower s = ''yes'' \<or> lower s = ''1'')))
         \<and> (v \<in> {PyText ''on'', PyText ''TRUE'', PyText ''Yes'', PyText ''1''} \<longrightarrow>
              fst (getbool B w c key0 dflt doc) = Inr (PyBool True))"
proof -
  note r = getbool_result [OF assms(1), of B w c key0 doc]
  have general: "fst (getbool B w c key0 dflt doc) =
      Inr (PyBool (lower (text_type B v) \<in> {''on'', ''true'', ''yes'', ''1''}))"
    if "v \<noteq> PyNone"
    using that assms(2) by (simp add: r)
  have none: "fst (getbool B w c key0 dflt doc) = Inr PyNone" if "v = PyNone"
    using that assms(2) by (simp add: r)
  have on_text: "fst (getbool B w c key0 dflt doc) =
      Inr (PyBool (lower s = ''on'' \<or> lower s = ''true'' \<or> lower s = ''yes'' \<or> lower s = ''1''))"
    if "v = PyText s"
    using general that by auto
  have examples: "fst (getbool B w c key0 dflt doc) = Inr (PyBool True)"
    if "v \<in> {PyText ''on'', PyText ''TRUE'', PyText ''Yes'', PyText ''1''}"
    using that general by (auto simp: lower_def lower_char_def)
  show ?thesis
    using general none on_text examples by blast
qed

theorem C7_getbool_truth_values_witness:
  "fst (getbool example_builtins (example_world\<lparr>environ := [''NS_K'' \<mapsto> ''TRUE'']\<rparr>)
          example_config ''k'' (PyBool False) []) = Inr (PyBool True)
   \<and> fst (getbool example_builtins (example_world\<lparr>environ := [''NS_K'' \<mapsto> ''2'']\<rparr>)
          example_config ''k'' (PyBool True) []) = Inr (PyBool False)
   \<and> fst (getbool example_builtins example_world example_config ''zz'' PyNone [])
       = Inr PyNone"
proof -
  have ns: "namespace example_config = ''ns''" by (simp add: example_config_def)
  have a: "PyText x =
      fst (cg_get (example_world\<lparr>environ := [''NS_K'' \<mapsto> x]\<rparr>) example_config ''k'' d [])"
    for x d
    by (simp add: cg_get_value [OF example_key_parts] ns example_env_key cg_read_env_set)
  have zz: "key_parts ''zz'' = ([], ''zz'')" by (simp add: key_parts_def)
  have b: "d = fst (cg_get example_world example_config ''zz'' d [])" for d
    by (simp add: cg_get_value [OF zz] cg_read_absent defaults_lookup_def
        example_world_def example_config_def)
  have l: "lower ''2'' = ''2''" by (simp add: lower_def lower_char_def)
  have f: "PyBool False = PyNone \<or> isinstance_bool (PyBool False)"
    and t: "PyBool True = PyNone \<or> isinstance_bool (PyBool True)"
    and n: "PyNone = PyNone \<or> isinstance_bool PyNone"
    by simp_all
  from C7_getbool_truth_values [OF f a [of "''TRUE''"], where B = example_builtins
         and s = "''TRUE''"]
       C7_getbool_truth_values [OF t a [of "''2''"], where B = example_builtins and s = "''2''"]
       C7_getbool_truth_values [OF n b, where B = example_builtins] l
  show ?thesis by (simp add: lower_def lower_char_def)
qed

subsection \<open>The fallback\<close>

text \<open>
  C5 (as stated, refuted).  The key \<^verbatim>\<open>zz\<close> is in no source.  \<^verbatim>\<open>getlist\<close> with the text
  default \<^verbatim>\<open>'a,b'\<close> returns the list \<^verbatim>\<open>['a', 'b']\<close>, and with the tuple default
  \<^verbatim>\<open>()\<close> it returns the list \<^verbatim>\<open>[]\<close>: the default goes through the accessor's own
  conversion.
\<close>

theorem C5_getlist_default_counterexample:
  "environ example_world (cg_env_key (namespace example_config) ''zz'' []) = None
   \<and> parser example_config (''DEFAULT'', ''zz'') = None
   \<and> defaults_lookup example_config ''DEFAULT'' ''zz'' = None
   \<and> defaults_lookup example_config [] ''zz'' = None
   \<and> fst (getlist example_world example_config ''zz'' (PyText ''a,b'') [] '','')
       = Inr (PyList [PyText ''a'', PyText ''b''])
   \<and> fst (getlist example_world example_config ''zz'' (PyTuple []) [] '','')
       = Inr (PyList [])"
  by (simp add: getlist_def cg_get_def key_parts_def cg_read_def cg_read_env_def
      cg_read_parser_def defaults_lookup_def example_world_def example_config_def Let_def
      split_def strip_def isspace_def)

text \<open>
  C5 (amended).  For every key absent from the environment, the parser and the default
  table: \<^verbatim>\<open>getstr\<close> returns its default unchanged; \<^verbatim>\<open>getbool\<close>, \<^verbatim>\<open>getfloat\<close>, and
  \<^verbatim>\<open>getint\<close> with \<^verbatim>\<open>None\<close> or an integer, return a value equal to the default (a
  \<^verbatim>\<open>bool\<close> default of \<^verbatim>\<open>getint\<close> comes back as the integer 0 or 1); \<^verbatim>\<open>getlist\<close>
  returns \<^verbatim>\<open>None\<close> for \<^verbatim>\<open>None\<close>, a list default as an equal list, a tuple default as
  the list of its elements, and a text default split at the separator, stripped and
  without its empty pieces.
\<close>

theorem C5_default_when_absent:
  assumes "key_parts key0 = (section, key)"
    and "config_section = (if section \<noteq> [] then section else ''DEFAULT'')"
    and "environ w (cg_env_key (namespace c) key section) = None"
    and "parser c (config_section, key) = None"
    and "defaults_lookup c config_section key = None"
  shows "(dflt = PyNone \<or> isinstance_unicode dflt \<longrightarrow>
            fst (getstr w c key0 dflt doc) = Inr dflt)
         \<and> (dflt = PyNone \<or> isinstance_bool dflt \<longrightarrow>
              fst (getbool B w c key0 dflt doc) = Inr dflt)
         \<and> (dflt = PyNone \<or> dflt = PyInt i \<longrightarrow>
              fst (getint B w c key0 dflt doc) = Inr dflt)
         \<and> (dflt = PyBool b \<longrightarrow>
              fst (getint B w c key0 dflt doc) = Inr (PyInt (if b then 1 else 0)))
         \<and> (dflt = PyNone \<or> isinstance_float dflt \<longrightarrow>
              fst (getfloat B w c key0 dflt doc) = Inr dflt)
         \<and> (dflt = PyNone \<or> dflt = PyList xs \<longrightarrow>
              fst (getlist w c key0 dflt doc sep) = Inr dflt)
         \<and> (dflt = PyTuple xs \<longrightarrow>
              fst (getlist w c key0 dflt doc sep) = Inr (PyList xs))
         \<and> (dflt = PyText s \<and> sep \<noteq> [] \<longrightarrow>
              fst (getlist w c key0 dflt doc sep) =
                Inr (PyList (map PyText (filter (\<lambda>p. p \<noteq> []) (map strip (split_on sep s))))))"
proof -
  have v: "fst (cg_get w c key0 dflt doc) = dflt"
    using assms by (simp add: cg_get_value cg_read_absent del: if_split split del: if_split)
  have str: "fst (getstr w c key0 dflt doc) = Inr dflt"
    if "dflt = PyNone \<or> isinstance_unicode dflt"
    using that v by (simp add: getstr_result)
  have bool: "fst (getbool B w c key0 dflt doc) = Inr dflt"
    if "dflt = PyNone \<or> isinstance_bool dflt"
    using that v
    by (cases dflt) (auto simp: getbool_result lower_True lower_False)
  have int: "fst (getint B w c key0 dflt doc) = Inr dflt" if "dflt = PyNone \<or> dflt = PyInt i"
    using that v by (auto simp: getint_result)
  have int_bool:
    "fst (getint B w c key0 dflt doc) = Inr (PyInt (if b then 1 else 0))" if "dflt = PyBool b"
    using that v by (auto simp: getint_result)
  have float: "fst (getfloat B w c key0 dflt doc) = Inr dflt"
    if "dflt = PyNone \<or> isinstance_float dflt"
    using that v by (cases dflt) (auto simp: getfloat_result)
  have list: "fst (getlist w c key0 dflt doc sep) = Inr dflt"
    if "dflt = PyNone \<or> dflt = PyList xs"
    using that v by (auto simp: getlist_result)
  have tuple: "fst (getlist w c key0 dflt doc sep) = Inr (PyList xs)" if "dflt = PyTuple xs"
    using that v by (auto simp: getlist_result)
  have on_text: "fst (getlist w c key0 dflt doc sep) =
      Inr (PyList (map PyText (filter (\<lambda>p. p \<noteq> []) (map strip (split_on sep s)))))"
    if "dflt = PyText s" "sep \<noteq> []"
    using that v by (auto simp: getlist_result split_def)
  show ?thesis
    using str bool int int_bool float list tuple on_text by blast
qed

theorem C5_default_when_absent_witness:
  "fst (getstr example_world example_config ''zz'' (PyText ''fallback'') [])
     = Inr (PyText ''fallback'')
   \<and> fst (getstr example_world example_config ''zz'' PyNone []) = Inr PyNone
   \<and> fst (getbool example_builtins example_world example_config ''zz'' (PyBool True) [])
       = Inr (PyBool True)
   \<and> fst (getint example_builtins example_world example_config ''zz'' (PyInt 7) [])
       = Inr (PyInt 7)
   \<and> fst (getfloat example_builtins example_world example_config ''zz'' (PyFloat 0) [])
       = Inr (PyFloat 0)
   \<and> fst (getlist example_world example_config ''zz'' (PyList [PyText ''x'']) [] '','')
       = Inr (PyList [PyText ''x''])
   \<and> fst (getlist example_world example_config ''zz'' (PyTuple [PyText ''x'']) [] '','')
       = Inr (PyList [PyText ''x''])"
proof -
  have a: "key_parts ''zz'' = ([], ''zz'')" by (simp add: key_parts_def)
  have b: "''DEFAULT'' = (if ([]::string) \<noteq> [] then [] else ''DEFAULT'')" by simp
  have c: "environ example_world (cg_env_key (namespace example_config) ''zz'' []) = None"
    by (simp add: example_world_def)
  have d: "parser example_config (''DEFAULT'', ''zz'') = None"
    by (simp add: example_config_def)
  have e: "defaults_lookup example_config ''DEFAULT'' ''zz'' = None"
    by (simp add: example_config_def defaults_lookup_def)
  note r = C5_default_when_absent [OF a b c d e, where B = example_builtins and sep = "'',''"]
  have "fst (getstr example_world example_config ''zz'' (PyText ''fallback'') [])
      = Inr (PyText ''fallback'')"
    using r [where dflt = "PyText ''fallback''"] by simp
  moreover have "fst (getstr example_world example_config ''zz'' PyNone []) = Inr PyNone"
    using r [where dflt = PyNone] by simp
  moreover have "fst (getbool example_builtins example_world example_config ''zz''
      (PyBool True) []) = Inr (PyBool True)"
    using r [where dflt = "PyBool True"] by simp
  moreover have "fst (getint example_builtins example_world example_config ''zz'' (PyInt 7) [])
      = Inr (PyInt 7)"
    using r [where dflt = "PyInt 7" and i = 7] by simp
  moreover have "fst (getfloat example_builtins example_world example_config ''zz''
      (PyFloat 0) []) = Inr (PyFloat 0)"
    using r [where dflt = "PyFloat 0"] by simp
  moreover have "fst (getlist example_world example_config ''zz'' (PyList [PyText ''x'']) []
      '','') = Inr (PyList [PyText ''x''])"
    using r [where dflt = "PyList [PyText ''x'']" and xs = "[PyText ''x'']"] by simp
  moreover have "fst (getlist example_world example_config ''zz'' (PyTuple [PyText ''x'']) []
      '','') = Inr (PyList [PyText ''x''])"
    using r [where dflt = "PyTuple [PyText ''x'']" and xs = "[PyText ''x'']"] by simp
  ultimately show ?thesis by blast
qed

subsection \<open>The keys seen\<close>






lemma cg_get_namespace: "namespace (snd (cg_get w c key0 dflt doc)) = namespace c"
  by (cases "key_parts key0") (simp add: cg_get_state)





subsection \<open>The constructor\<close>

lemma collect_search_files_append:
  "collect_search_files w (ps @ qs) = collect_search_files w ps @ collect_search_files w qs"
  by (induction w ps rule: collect_search_files.induct) (simp_all add: Let_def)

lemma final_config_files_append:
  "final_config_files w (ps @ qs) = final_config_files w ps @ final_config_files w qs"
  by (induction ps) (simp_all add: Let_def)

lemma final_config_files_concat:
  "final_config_files w sf = concat (map (\<lambda>path. sort (glob w path)) sf)"
  by (induction sf) (simp_all add: Let_def)

lemma final_config_files_matching:
  "final_config_files w (filter (\<lambda>path. glob w path \<noteq> []) sf) = final_config_files w sf"
  by (induction sf) (simp_all add: Let_def)

lemma parser_read_append:
  "parser_read w st (fs @ gs) =
     (case parser_read w st fs of
        Inl e \<Rightarrow> Inl e
      | Inr (st1, ok1) \<Rightarrow>
          (case parser_read w st1 gs of
             Inl e \<Rightarrow> Inl e
           | Inr (st2, ok2) \<Rightarrow> Inr (st2, ok1 @ ok2)))"
  by (induction fs arbitrary: st) (auto split: file_read.splits sum.splits prod.splits)

lemma parser_read_from_empty:
  "parser_read w st fs =
     (case parser_read w Map.empty fs of
        Inl e \<Rightarrow> Inl e
      | Inr (se, ok) \<Rightarrow> Inr (st ++ se, ok))"
proof (induction fs arbitrary: st)
  case Nil
  then show ?case by simp
next
  case (Cons f fs)
  show ?case
  proof (cases "parse_file w f")
    case Unreadable
    then show ?thesis using Cons [of st] by simp
  next
    case Malformed
    then show ?thesis by simp
  next
    case (Parsed entries)
    then show ?thesis
      using Cons [of "st ++ entries"] Cons [of entries]
      by (auto split: sum.splits prod.splits)
  qed
qed

lemma parser_read_malformed:
  "f \<in> set fs \<Longrightarrow> parse_file w f = Malformed \<Longrightarrow> parser_read w st fs = Inl ParsingError"
proof (induction fs arbitrary: st)
  case Nil
  then show ?case by simp
next
  case (Cons g fs)
  show ?case
  proof (cases "f = g")
    case True
    with Cons.prems show ?thesis by simp
  next
    case False
    with Cons.prems have "parser_read w st' fs = Inl ParsingError" for st'
      by (simp add: Cons.IH)
    then show ?thesis
      by (simp split: file_read.splits)
  qed
qed

lemma parser_read_well_formed:
  "\<forall>f \<in> set fs. parse_file w f \<noteq> Malformed \<Longrightarrow> \<exists>st' ok. parser_read w st fs = Inr (st', ok)"
proof (induction fs arbitrary: st)
  case Nil
  then show ?case by simp
next
  case (Cons g fs)
  from Cons.prems have rest: "\<forall>f \<in> set fs. parse_file w f \<noteq> Malformed"
    by simp
  show ?case
  proof (cases "parse_file w g")
    case Unreadable
    with Cons.IH [OF rest, of st] show ?thesis by simp
  next
    case Malformed
    with Cons.prems show ?thesis by simp
  next
    case (Parsed entries)
    from Cons.IH [OF rest, of "st ++ entries"] obtain st' ok
      where "parser_read w (st ++ entries) fs = Inr (st', ok)" by blast
    with Parsed show ?thesis by simp
  qed
qed

lemma parser_read_found:
  "parser_read w st fs = Inr (st', ok) \<Longrightarrow> ok = filter (\<lambda>f. parse_file w f \<noteq> Unreadable) fs"
  by (induction fs arbitrary: st st' ok) (auto split: file_read.splits sum.splits prod.splits)

lemma parser_read_untouched:
  "parser_read w st fs = Inr (st', ok) \<Longrightarrow>
   (\<forall>g \<in> set fs. \<forall>later. parse_file w g = Parsed later \<longrightarrow> later x = None) \<Longrightarrow>
   st' x = st x"
proof (induction fs arbitrary: st st' ok)
  case Nil
  then show ?case by simp
next
  case (Cons f fs)
  show ?case
  proof (cases "parse_file w f")
    case Unreadable
    with Cons.prems Cons.IH [of st st' ok] show ?thesis by simp
  next
    case Malformed
    with Cons.prems show ?thesis by simp
  next
    case (Parsed entries)
    with Cons.prems obtain ok' where r: "parser_read w (st ++ entries) fs = Inr (st', ok')"
      by (auto split: sum.splits prod.splits)
    from Cons.prems(2) Parsed have "entries x = None" by simp
    then have "(st ++ entries) x = st x" by (simp add: map_add_def)
    with Cons.IH [OF r] Cons.prems(2) show ?thesis by simp
  qed
qed

lemma parser_read_later_wins:
  assumes "parser_read w st (xs @ f # ys) = Inr (st', ok)"
    and "parse_file w f = Parsed entries"
    and "entries x = Some v"
    and "\<forall>g \<in> set ys. \<forall>later. parse_file w g = Parsed later \<longrightarrow> later x = None"
  shows "st' x = Some v"
proof -
  from assms(1) obtain st1 ok1 st2 ok2 where
    1: "parser_read w st xs = Inr (st1, ok1)" and
    2: "parser_read w st1 (f # ys) = Inr (st2, ok2)" and 3: "st' = st2"
    by (auto simp: parser_read_append split: sum.splits prod.splits)
  from 2 assms(2) obtain ok3 where "parser_read w (st1 ++ entries) ys = Inr (st2, ok3)"
    by (auto split: sum.splits prod.splits)
  from parser_read_untouched [OF this assms(4)] assms(3) 3 show ?thesis
    by simp
qed

lemma cg_env_key_config: "cg_env_key ns ''config'' [] = upper ns @ ''_CONFIG''"
  by (simp add: cg_env_key_def upper_def upper_char_def)

lemma final_config_files_single: "final_config_files w [path] = sort (glob w path)"
  by (simp add: final_config_files_concat)

lemma cg_init_Inr:
  "cg_init w ns config_files dflts = Inr c \<Longrightarrow>
   search_files c = collect_search_files w (config_files @ [environ w (cg_env_key ns ''config'' [])])
   \<and> parser_read w Map.empty (final_config_files w (search_files c))
       = Inr (parser c, found_files c)
   \<and> seen_keys c = {||} \<and> namespace c = ns"
  by (auto simp: cg_init_def Let_def split: sum.splits prod.splits)

lemma example_fs:
  "expanduser example_world p = p"
  "abspath example_world p = (if p = [] then ''/srv/app'' else p)"
  "isdir example_world p = (p = ''/srv/app'')"
  "glob example_world p =
     (if p = ''/srv/app/*'' then [''/srv/app/b.ini'', ''/srv/app/a.ini'']
      else if p = ''/etc/app.ini'' then [''/etc/app.ini'']
      else [])"
  "parse_file example_world f =
     (if f = ''/srv/app/a.ini''
        then Parsed [(''DEFAULT'', ''k'') \<mapsto> ''va'', (''s'', ''x'') \<mapsto> ''1'']
      else if f = ''/srv/app/b.ini''
        then Parsed [(''DEFAULT'', ''k'') \<mapsto> ''vb'']
      else if f = ''/etc/app.ini''
        then Parsed [(''DEFAULT'', ''k'') \<mapsto> ''etc'', (''s'', ''y'') \<mapsto> ''2'']
      else Unreadable)"
  by (simp_all add: example_world_def)

lemma collect_search_files_environ [simp]:
  "collect_search_files (w\<lparr>environ := e\<rparr>) paths = collect_search_files w paths"
  by (induction w paths rule: collect_search_files.induct) (simp_all add: Let_def)

lemma final_config_files_environ [simp]:
  "final_config_files (w\<lparr>environ := e\<rparr>) paths = final_config_files w paths"
  by (induction paths) (simp_all add: Let_def)

lemma parser_read_environ [simp]:
  "parser_read (w\<lparr>environ := e\<rparr>) st fs = parser_read w st fs"
  by (induction fs arbitrary: st) (simp_all split: file_read.splits)

text \<open>
  C3 (as stated, refuted).  With \<^verbatim>\<open>NS_CONFIG\<close> set to the empty text and no candidate
  listed, the constructor still adds a candidate: the empty path is made absolute, which
  gives the current directory \<^verbatim>\<open>/srv/app\<close>, a directory, so the candidate is
  \<^verbatim>\<open>/srv/app/*\<close> and the two files there are read.
\<close>

theorem C3_empty_override_counterexample:
  "environ example_world_empty_override (cg_env_key ''ns'' ''config'' []) = Some []
   \<and> map_sum id search_files (cg_init example_world_empty_override ''ns'' [] None)
       = Inr [''/srv/app/*'']
   \<and> map_sum id found_files (cg_init example_world_empty_override ''ns'' [] None)
       = Inr [''/srv/app/a.ini'', ''/srv/app/b.ini'']"
  by (simp add: example_world_empty_override_def cg_init_def cg_env_key_config upper_def
      upper_char_def example_fs path_join_star_def Let_def)

text \<open>
  C3 (amended).  The constructor reads the variable \<^verbatim>\<open>{NAMESPACE}_CONFIG\<close>.  If it is
  unset the candidates are the listed ones.  If it is set, to any text, its value is made
  absolute (and a directory becomes the pattern of its entries) like every candidate and
  is the last candidate; the files it matches are read last, so every entry they define is
  the entry of the getter's parser, whatever the listed candidates' files hold.
\<close>

theorem C3_config_variable_candidate:
  assumes "cg_init w ns config_files dflts = Inr c"
    and "candidate = (if isdir w (abspath w (expanduser w v))
                      then path_join_star (abspath w (expanduser w v))
                      else abspath w (expanduser w v))"
  shows "(environ w (upper ns @ ''_CONFIG'') = None \<longrightarrow>
            search_files c = collect_search_files w config_files)
         \<and> (environ w (upper ns @ ''_CONFIG'') = Some v \<longrightarrow>
              search_files c = collect_search_files w config_files @ [candidate]
              \<and> (\<exists>st ok. parser_read w Map.empty (sort (glob w candidate)) = Inr (st, ok)
                    \<and> found_files c =
                        filter (\<lambda>f. parse_file w f \<noteq> Unreadable)
                          (final_config_files w (collect_search_files w config_files)) @ ok
                    \<and> (\<forall>x y. st x = Some y \<longrightarrow> parser c x = Some y)))"
proof -
  note i = cg_init_Inr [OF assms(1), unfolded cg_env_key_config]
  have unset: "search_files c = collect_search_files w config_files"
    if "environ w (upper ns @ ''_CONFIG'') = None"
    using i that by (simp add: collect_search_files_append)
  have set_: "search_files c = collect_search_files w config_files @ [candidate]
      \<and> (\<exists>st ok. parser_read w Map.empty (sort (glob w candidate)) = Inr (st, ok)
            \<and> found_files c =
                filter (\<lambda>f. parse_file w f \<noteq> Unreadable)
                  (final_config_files w (collect_search_files w config_files)) @ ok
            \<and> (\<forall>x y. st x = Some y \<longrightarrow> parser c x = Some y))"
    if "environ w (upper ns @ ''_CONFIG'') = Some v"
  proof -
    let ?explicit = "final_config_files w (collect_search_files w config_files)"
    have sf: "search_files c = collect_search_files w config_files @ [candidate]"
      using i that assms(2) by (simp add: collect_search_files_append Let_def)
    have "final_config_files w (search_files c) = ?explicit @ sort (glob w candidate)"
      unfolding sf by (simp only: final_config_files_append final_config_files_single)
    with i have "parser_read w Map.empty (?explicit @ sort (glob w candidate))
        = Inr (parser c, found_files c)"
      by simp
    then obtain st1 ok1 ok2 where
      1: "parser_read w Map.empty ?explicit = Inr (st1, ok1)" and
      2: "parser_read w st1 (sort (glob w candidate)) = Inr (parser c, ok2)" and
      3: "found_files c = ok1 @ ok2"
      by (auto simp: parser_read_append split: sum.splits prod.splits)
    from 2 obtain se where
      4: "parser_read w Map.empty (sort (glob w candidate)) = Inr (se, ok2)" and
      5: "parser c = st1 ++ se"
      by (subst (asm) parser_read_from_empty) (auto split: sum.splits prod.splits)
    have "\<forall>x y. se x = Some y \<longrightarrow> parser c x = Some y"
      by (simp add: 5)
    with sf 3 4 parser_read_found [OF 1] show ?thesis by blast
  qed
  from unset set_ show ?thesis by blast
qed

theorem C3_config_variable_candidate_witness:
  "\<exists>c. cg_init (example_world\<lparr>environ := [''NS_CONFIG'' \<mapsto> ''/srv/app'']\<rparr>) ''ns''
          [Some ''/etc/app.ini''] None = Inr c
       \<and> search_files c = [''/etc/app.ini'', ''/srv/app/*'']
       \<and> found_files c = [''/etc/app.ini'', ''/srv/app/a.ini'', ''/srv/app/b.ini'']
       \<and> parser c (''DEFAULT'', ''k'') = Some ''vb''"
proof -
  let ?w = "example_world\<lparr>environ := [''NS_CONFIG'' \<mapsto> ''/srv/app'']\<rparr>"
  obtain c where init: "cg_init ?w ''ns'' [Some ''/etc/app.ini''] None = Inr c"
    by (simp add: cg_init_def cg_env_key_config upper_def upper_char_def example_fs
        path_join_star_def Let_def)
  have cand: "''/srv/app/*'' =
      (if isdir ?w (abspath ?w (expanduser ?w ''/srv/app''))
       then path_join_star (abspath ?w (expanduser ?w ''/srv/app''))
       else abspath ?w (expanduser ?w ''/srv/app''))"
    by (simp add: example_fs path_join_star_def)
  have env: "environ ?w (upper ''ns'' @ ''_CONFIG'') = Some ''/srv/app''"
    by (simp add: upper_def upper_char_def)
  have explicit: "collect_search_files ?w [Some ''/etc/app.ini''] = [''/etc/app.ini'']"
    by (simp add: example_fs)
  from C3_config_variable_candidate [OF init cand] env obtain st ok where
    sf: "search_files c = collect_search_files ?w [Some ''/etc/app.ini''] @ [''/srv/app/*'']" and
    r: "parser_read ?w Map.empty (sort (glob ?w ''/srv/app/*'')) = Inr (st, ok)" and
    found: "found_files c = filter (\<lambda>f. parse_file ?w f \<noteq> Unreadable)
        (final_config_files ?w (collect_search_files ?w [Some ''/etc/app.ini''])) @ ok" and
    wins: "\<forall>x y. st x = Some y \<longrightarrow> parser c x = Some y"
    by blast
  from r have "st (''DEFAULT'', ''k'') = Some ''vb''" "ok = [''/srv/app/a.ini'', ''/srv/app/b.ini'']"
    by (auto simp: example_fs)
  with wins sf found init show ?thesis
    by (simp add: explicit example_fs)
qed

text \<open>
  C4.  The files handed to the parser are, candidate after candidate, the matches of the
  candidate in ascending order; a candidate with no match adds nothing.  The constructor
  fails only when one of these files does not parse; otherwise the files read are these
  files, in this order, less the ones that cannot be opened, and an entry defined by a file
  and by no later file of the list is the entry of the getter's parser.
\<close>

theorem C4_file_order:
  assumes "sf = collect_search_files w (config_files @ [environ w (cg_env_key ns ''config'' [])])"
    and "files = concat (map (\<lambda>path. sort (glob w path)) sf)"
  shows "final_config_files w sf = files
         \<and> final_config_files w (filter (\<lambda>path. glob w path \<noteq> []) sf) = files
         \<and> ((\<exists>f \<in> set files. parse_file w f = Malformed) \<longrightarrow>
              cg_init w ns config_files dflts = Inl ParsingError)
         \<and> ((\<forall>f \<in> set files. parse_file w f \<noteq> Malformed) \<longrightarrow>
              (\<exists>c. cg_init w ns config_files dflts = Inr c
                 \<and> search_files c = sf
                 \<and> found_files c = filter (\<lambda>f. parse_file w f \<noteq> Unreadable) files
                 \<and> (files = [] \<longrightarrow> parser c = Map.empty)
                 \<and> (\<forall>xs f ys entries x v.
                       files = xs @ f # ys \<and> parse_file w f = Parsed entries
                       \<and> entries x = Some v
                       \<and> (\<forall>g \<in> set ys. \<forall>later. parse_file w g = Parsed later
                                                 \<longrightarrow> later x = None)
                       \<longrightarrow> parser c x = Some v)))"
proof -
  have files: "final_config_files w sf = files"
    using assms(2) by (simp add: final_config_files_concat)
  have matching: "final_config_files w (filter (\<lambda>path. glob w path \<noteq> []) sf) = files"
    using files by (simp add: final_config_files_matching)
  have bad: "cg_init w ns config_files dflts = Inl ParsingError"
    if "\<exists>f \<in> set files. parse_file w f = Malformed"
  proof -
    from that obtain f where "f \<in> set files" "parse_file w f = Malformed" by blast
    then have "parser_read w Map.empty (final_config_files w sf) = Inl ParsingError"
      unfolding files by (rule parser_read_malformed)
    then show ?thesis
      using assms(1) by (simp add: cg_init_def Let_def)
  qed
  have good: "\<exists>c. cg_init w ns config_files dflts = Inr c
      \<and> search_files c = sf
      \<and> found_files c = filter (\<lambda>f. parse_file w f \<noteq> Unreadable) files
      \<and> (files = [] \<longrightarrow> parser c = Map.empty)
      \<and> (\<forall>xs f ys entries x v.
            files = xs @ f # ys \<and> parse_file w f = Parsed entries \<and> entries x = Some v
            \<and> (\<forall>g \<in> set ys. \<forall>later. parse_file w g = Parsed later \<longrightarrow> later x = None)
            \<longrightarrow> parser c x = Some v)"
    if "\<forall>f \<in> set files. parse_file w f \<noteq> Malformed"
  proof -
    from parser_read_well_formed [OF that, of Map.empty] obtain st ok
      where r: "parser_read w Map.empty files = Inr (st, ok)" by blast
    let ?c = "\<lparr> parser = st, seen_keys = {||}, namespace = ns,
                 defaults = (case dflts of None \<Rightarrow> Map.empty | Some d \<Rightarrow> d),
                 search_files = sf, found_files = ok \<rparr>"
    have init: "cg_init w ns config_files dflts = Inr ?c"
      using r files assms(1) by (simp add: cg_init_def Let_def)
    have found: "found_files ?c = filter (\<lambda>f. parse_file w f \<noteq> Unreadable) files"
      using parser_read_found [OF r] by simp
    have none: "parser ?c = Map.empty" if "files = []"
      using r that by simp
    have later: "parser ?c x = Some v"
      if "files = xs @ f # ys" "parse_file w f = Parsed entries" "entries x = Some v"
        "\<forall>g \<in> set ys. \<forall>later. parse_file w g = Parsed later \<longrightarrow> later x = None"
      for xs f ys entries x v
      using parser_read_later_wins [OF r [unfolded that(1)] that(2,3,4)] by simp
    have sfc: "search_files ?c = sf" by simp
    from init sfc found none later show ?thesis
      by (intro exI [of _ ?c] conjI) blast+
  qed
  from files matching bad good show ?thesis by blast
qed

theorem C4_file_order_witness:
  "\<exists>c. cg_init example_world ''ns'' [Some ''/etc/app.ini'', Some ''/nowhere'', None, Some []] None
          = Inr c
       \<and> search_files c = [''/etc/app.ini'', ''/nowhere'', ''/srv/app/*'']
       \<and> found_files c = [''/etc/app.ini'', ''/srv/app/a.ini'', ''/srv/app/b.ini'']
       \<and> parser c (''DEFAULT'', ''k'') = Some ''vb''"
proof -
  let ?w = "example_world"
  let ?cf = "[Some ''/etc/app.ini'', Some ''/nowhere'', None, Some []]"
  have env: "environ ?w (cg_env_key ''ns'' ''config'' []) = None"
    by (simp add: example_world_def)
  have sf: "[''/etc/app.ini'', ''/nowhere'', ''/srv/app/*''] =
      collect_search_files ?w (?cf @ [environ ?w (cg_env_key ''ns'' ''config'' [])])"
    unfolding env by (simp add: example_fs path_join_star_def)
  have files: "[''/etc/app.ini'', ''/srv/app/a.ini'', ''/srv/app/b.ini''] =
      concat (map (\<lambda>path. sort (glob ?w path)) [''/etc/app.ini'', ''/nowhere'', ''/srv/app/*''])"
    by (simp add: example_fs)
  have parse: "parse_file ?w ''/etc/app.ini'' \<noteq> Malformed"
    "parse_file ?w ''/srv/app/a.ini'' \<noteq> Malformed"
    "parse_file ?w ''/srv/app/b.ini'' \<noteq> Malformed"
    "parse_file ?w ''/etc/app.ini'' \<noteq> Unreadable"
    "parse_file ?w ''/srv/app/a.ini'' \<noteq> Unreadable"
    "parse_file ?w ''/srv/app/b.ini'' \<noteq> Unreadable"
    "parse_file ?w ''/srv/app/b.ini'' = Parsed [(''DEFAULT'', ''k'') \<mapsto> ''vb'']"
    by (simp_all add: example_fs)
  from C4_file_order [OF sf files, of None] parse obtain c where
    init: "cg_init ?w ''ns'' ?cf None = Inr c" and
    s: "search_files c = [''/etc/app.ini'', ''/nowhere'', ''/srv/app/*'']" and
    f: "found_files c = filter (\<lambda>f. parse_file ?w f \<noteq> Unreadable)
        [''/etc/app.ini'', ''/srv/app/a.ini'', ''/srv/app/b.ini'']" and
    later: "\<forall>xs f ys entries x v.
        [''/etc/app.ini'', ''/srv/app/a.ini'', ''/srv/app/b.ini''] = xs @ f # ys
        \<and> parse_file ?w f = Parsed entries \<and> entries x = Some v
        \<and> (\<forall>g \<in> set ys. \<forall>later. parse_file ?w g = Parsed later \<longrightarrow> later x = None)
        \<longrightarrow> parser c x = Some v"
    by auto
  from later [rule_format, of "[''/etc/app.ini'', ''/srv/app/a.ini'']" "''/srv/app/b.ini''" "[]"
      "[(''DEFAULT'', ''k'') \<mapsto> ''vb'']" "(''DEFAULT'', ''k'')" "''vb''"] parse
  have "parser c (''DEFAULT'', ''k'') = Some ''vb''" by simp
  with init s f parse show ?thesis by simp
qed

end
